theory Spec2Isabelle
  imports Main "HOL-Library.Sublist"
begin

section \<open>Strings of the program\<close>

text \<open>
  A Python \<^verbatim>\<open>str\<close> is a sequence of code points. The model represents the code
  points 0..255 by \<^typ>\<open>char\<close>, read as ISO-8859-1, the encoding
  \<^verbatim>\<open>build_citation_database\<close> decodes the corpus with. The character classes below
  are the ones Python's \<^verbatim>\<open>str.lower\<close>, \<^verbatim>\<open>str.strip\<close> and the regular
  expression class \<^verbatim>\<open>\W\<close> use on that range.
\<close>

definition ord :: "char \<Rightarrow> nat" where
  "ord c = of_char c"

text \<open>Upper-case letters: A-Z and the Latin-1 capitals U+00C0..U+00DE without the
  multiplication sign U+00D7. Each has its lower-case partner 32 code points later.\<close>

definition is_upper :: "char \<Rightarrow> bool" where
  "is_upper c \<longleftrightarrow> (65 \<le> ord c \<and> ord c \<le> 90) \<or> (192 \<le> ord c \<and> ord c \<le> 222 \<and> ord c \<noteq> 215)"

definition lower_char :: "char \<Rightarrow> char" where
  "lower_char c = (if is_upper c then char_of (ord c + 32) else c)"

text \<open>\<^verbatim>\<open>title.lower()\<close>\<close>

definition str_lower :: "string \<Rightarrow> string" where
  "str_lower s = map lower_char s"

text \<open>Alphanumeric characters (\<^verbatim>\<open>str.isalnum\<close>): the letters and digits of ASCII, the
  ordinal indicators, the micro sign, the superscript digits, the vulgar fractions, and the
  Latin-1 letters U+00C0..U+00FF without the multiplication and division signs.\<close>

definition is_alnum :: "char \<Rightarrow> bool" where
  "is_alnum c \<longleftrightarrow>
     (48 \<le> ord c \<and> ord c \<le> 57) \<or> (65 \<le> ord c \<and> ord c \<le> 90) \<or> (97 \<le> ord c \<and> ord c \<le> 122) \<or>
     ord c \<in> {170, 178, 179, 181, 185, 186, 188, 189, 190} \<or>
     (192 \<le> ord c \<and> ord c \<noteq> 215 \<and> ord c \<noteq> 247)"

text \<open>The class \<^verbatim>\<open>[\W_]\<close>: everything that is not a word character, and the underscore.\<close>

definition non_word_or_underscore :: "char \<Rightarrow> bool" where
  "non_word_or_underscore c \<longleftrightarrow> \<not> (is_alnum c \<or> c = CHR ''_'') \<or> c = CHR ''_''"

text \<open>\<^verbatim>\<open>re.sub(P+, rep, s)\<close> for a character class \<open>P\<close>: every maximal run of
  characters of the class is replaced by \<open>rep\<close>.\<close>

function re_sub_runs :: "(char \<Rightarrow> bool) \<Rightarrow> string \<Rightarrow> string \<Rightarrow> string" where
  "re_sub_runs P rep [] = []"
| "re_sub_runs P rep (c # cs) =
     (if P c then rep @ re_sub_runs P rep (dropWhile P cs) else c # re_sub_runs P rep cs)"
  by pat_completeness auto
termination
  by (relation "measure (\<lambda>(P, rep, s). length s)") (auto simp: length_dropWhile_le less_Suc_eq_le)

text \<open>
  \<^verbatim>\<open>
  def normalize_title(title):
      if not title:
          return ""
      return re.sub(r"[\W_]+", "", title.lower())
  \<close>
  The argument is \<open>None\<close> when the title is missing.
\<close>

definition normalize_title :: "string option \<Rightarrow> string" where
  "normalize_title title =
     (case title of
        None \<Rightarrow> []
      | Some t \<Rightarrow> if t = [] then [] else re_sub_runs non_word_or_underscore [] (str_lower t))"

text \<open>White space (\<^verbatim>\<open>str.isspace\<close>): the ASCII controls 9..13 and 28..31, the space,
  NEXT LINE U+0085 and the no-break space U+00A0.\<close>

definition is_space :: "char \<Rightarrow> bool" where
  "is_space c \<longleftrightarrow> (9 \<le> ord c \<and> ord c \<le> 13) \<or> (28 \<le> ord c \<and> ord c \<le> 32) \<or> ord c = 133 \<or> ord c = 160"

text \<open>\<^verbatim>\<open>s.strip()\<close>\<close>

definition str_strip :: "string \<Rightarrow> string" where
  "str_strip s = rev (dropWhile is_space (rev (dropWhile is_space s)))"

text \<open>\<^verbatim>\<open>sep in s\<close>: \<open>sep\<close> occurs in \<open>s\<close> as a contiguous substring.\<close>

fun str_contains :: "string \<Rightarrow> string \<Rightarrow> bool" where
  "str_contains sep [] = (sep = [])"
| "str_contains sep (c # cs) = (prefix sep (c # cs) \<or> str_contains sep cs)"

text \<open>\<^verbatim>\<open>s.split(sep)\<close> for a non-empty separator: the text is scanned from the left,
  every occurrence of the separator closes the current piece, and the scan goes on
  behind the occurrence. \<open>acc\<close> is the piece read so far.\<close>

function split_acc :: "string \<Rightarrow> string \<Rightarrow> string \<Rightarrow> string list" where
  "split_acc sep acc [] = [acc]"
| "split_acc sep acc (c # cs) =
     (if sep \<noteq> [] \<and> prefix sep (c # cs)
      then acc # split_acc sep [] (drop (length sep) (c # cs))
      else split_acc sep (acc @ [c]) cs)"
  by pat_completeness auto
termination
  by (relation "measure (\<lambda>(sep, acc, s). length s)") auto

definition str_split :: "string \<Rightarrow> string \<Rightarrow> string list" where
  "str_split s sep = split_acc sep [] s"

text \<open>\<^verbatim>\<open>int(s)\<close> in base 10: white space around the number is ignored, a sign may
  come first, and single underscores may separate digits. \<open>None\<close> is the
  \<^verbatim>\<open>ValueError\<close>.\<close>

definition is_digit :: "char \<Rightarrow> bool" where
  "is_digit c \<longleftrightarrow> 48 \<le> ord c \<and> ord c \<le> 57"

fun parse_digits :: "int \<Rightarrow> bool \<Rightarrow> string \<Rightarrow> int option" where
  "parse_digits acc prev [] = (if prev then Some acc else None)"
| "parse_digits acc prev (c # cs) =
     (if is_digit c then parse_digits (10 * acc + int (ord c - 48)) True cs
      else if c = CHR ''_'' \<and> prev then parse_digits acc False cs
      else None)"

definition py_int :: "string \<Rightarrow> int option" where
  "py_int s =
     (case str_strip s of
        [] \<Rightarrow> None
      | c # cs \<Rightarrow>
          if c = CHR ''-'' then map_option uminus (parse_digits 0 False cs)
          else if c = CHR ''+'' then parse_digits 0 False cs
          else parse_digits 0 False (c # cs))"

text \<open>\<^verbatim>\<open>str(n)\<close> for an integer.\<close>

fun str_nat :: "nat \<Rightarrow> string" where
  "str_nat n = (if n < 10 then [char_of (48 + n)] else str_nat (n div 10) @ [char_of (48 + n mod 10)])"

definition str_int :: "int \<Rightarrow> string" where
  "str_int i = (if i < 0 then CHR ''-'' # str_nat (nat (- i)) else str_nat (nat i))"

section \<open>The corpus and its index\<close>

text \<open>
  One element of the corpus stream, as \<^verbatim>\<open>build_citation_database\<close> reads it: its tag,
  the \<^verbatim>\<open>key\<close> attribute, the text of its first \<^verbatim>\<open>title\<close> child, the texts of its
  \<^verbatim>\<open>ee\<close> children in document order, the text of its first \<^verbatim>\<open>year\<close> child and
  the texts of its \<^verbatim>\<open>cite\<close> children. A text is \<open>None\<close> when the child or its text
  is missing.
\<close>

record element =
  tag :: string
  key :: "string option"
  title_text :: "string option"
  ee_texts :: "string option list"
  year_text :: "string option"
  cite_texts :: "string option list"

definition PUBLICATION_TAGS :: "string list" where
  "PUBLICATION_TAGS =
     [''article'', ''inproceedings'', ''proceedings'', ''book'', ''incollection'',
      ''phdthesis'', ''mastersthesis'']"

text \<open>The three lookup tables: \<^verbatim>\<open>doi_to_key_map\<close>, \<^verbatim>\<open>title_to_key_map\<close> and
  \<^verbatim>\<open>citations_map\<close>.\<close>

record citation_index =
  doi_to_key_map :: "string \<rightharpoonup> string"
  title_to_key_map :: "string \<rightharpoonup> string"
  citations_map :: "string \<rightharpoonup> int list"

definition empty_index :: citation_index where
  "empty_index = \<lparr>doi_to_key_map = Map.empty, title_to_key_map = Map.empty, citations_map = Map.empty\<rparr>"

definition doi_marker :: string where
  "doi_marker = ''doi.org/''"

text \<open>
  \<^verbatim>\<open>
  title_elem = elem.find("title")
  if title_elem is not None and title_elem.text:
      normalized = normalize_title(title_elem.text)
      if normalized:
          title_to_key_map[normalized] = dblp_key
  \<close>
\<close>

definition index_title :: "string \<Rightarrow> element \<Rightarrow> citation_index \<Rightarrow> citation_index" where
  "index_title dblp_key elem idx =
     (case title_text elem of
        None \<Rightarrow> idx
      | Some t \<Rightarrow>
          if t = [] then idx
          else let normalized = normalize_title (Some t)
               in if normalized \<noteq> []
                  then idx\<lparr>title_to_key_map := (title_to_key_map idx)(normalized \<mapsto> dblp_key)\<rparr>
                  else idx)"

text \<open>
  \<^verbatim>\<open>
  for ee in elem.findall("ee"):
      if ee.text and "doi.org/" in ee.text:
          doi = ee.text.split("doi.org/")[-1]
          doi_to_key_map[doi] = dblp_key
          break
  \<close>
  \<open>first_doi\<close> is the identifier the loop registers, if any: the last piece of the
  first text that contains the marker.
\<close>

fun first_doi :: "string option list \<Rightarrow> string option" where
  "first_doi [] = None"
| "first_doi (None # ees) = first_doi ees"
| "first_doi (Some t # ees) =
     (if t \<noteq> [] \<and> str_contains doi_marker t then Some (last (str_split t doi_marker))
      else first_doi ees)"

definition index_doi :: "string \<Rightarrow> element \<Rightarrow> citation_index \<Rightarrow> citation_index" where
  "index_doi dblp_key elem idx =
     (case first_doi (ee_texts elem) of
        None \<Rightarrow> idx
      | Some doi \<Rightarrow> idx\<lparr>doi_to_key_map := (doi_to_key_map idx)(doi \<mapsto> dblp_key)\<rparr>)"

text \<open>
  \<^verbatim>\<open>
  year_elem = elem.find("year")
  if year_elem is not None and year_elem.text:
      try:
          citing_year = int(year_elem.text)
          for citation in elem.findall("cite"):
              if citation.text and citation.text != "...":
                  citations_map[citation.text].append(citing_year)
      except (ValueError, TypeError):
          pass
  \<close>
  \<^verbatim>\<open>citations_map\<close> is a \<^verbatim>\<open>defaultdict(list)\<close>: a key that is not there starts
  with the empty list.
\<close>

fun append_citations :: "int \<Rightarrow> string option list \<Rightarrow> (string \<rightharpoonup> int list) \<Rightarrow> (string \<rightharpoonup> int list)" where
  "append_citations citing_year [] m = m"
| "append_citations citing_year (None # cs) m = append_citations citing_year cs m"
| "append_citations citing_year (Some t # cs) m =
     (if t \<noteq> [] \<and> t \<noteq> ''...''
      then append_citations citing_year cs
             (m(t \<mapsto> (case m t of None \<Rightarrow> [] | Some ys \<Rightarrow> ys) @ [citing_year]))
      else append_citations citing_year cs m)"

definition index_citations :: "element \<Rightarrow> citation_index \<Rightarrow> citation_index" where
  "index_citations elem idx =
     (case year_text elem of
        None \<Rightarrow> idx
      | Some y \<Rightarrow>
          if y = [] then idx
          else (case py_int y of
                  None \<Rightarrow> idx
                | Some citing_year \<Rightarrow>
                    idx\<lparr>citations_map := append_citations citing_year (cite_texts elem) (citations_map idx)\<rparr>))"

text \<open>The body of the loop over the stream. Only elements with a publication tag reach
  it, and an element without a key (or with an empty one) is skipped.\<close>

definition index_element :: "citation_index \<Rightarrow> element \<Rightarrow> citation_index" where
  "index_element idx elem =
     (if tag elem \<notin> set PUBLICATION_TAGS then idx
      else case key elem of
             None \<Rightarrow> idx
           | Some dblp_key \<Rightarrow>
               if dblp_key = [] then idx
               else index_citations elem (index_doi dblp_key elem (index_title dblp_key elem idx)))"

text \<open>\<^verbatim>\<open>build_citation_database\<close> on a well-formed corpus: one pass over the stream,
  starting from three empty tables.\<close>

definition build_citation_database :: "element list \<Rightarrow> citation_index" where
  "build_citation_database elems = foldl index_element empty_index elems"

section \<open>The query cache and the remote citation source\<close>

text \<open>
  The state a run works on: the cache in memory (\<^verbatim>\<open>api_cache\<close>), the cache file
  \<^verbatim>\<open>api_cache.json\<close> (\<open>None\<close> while it does not exist), the number of calls of
  \<^verbatim>\<open>save_api_cache\<close> so far, the identifiers sent to the remote source so far, in
  order, and the output file.
\<close>

record run_state =
  api_cache :: "string \<rightharpoonup> int list"
  cache_file :: "(string \<rightharpoonup> int list) option"
  saves :: nat
  queries :: "string list"
  output_file :: "string list list option"

text \<open>The exceptions that leave \<^verbatim>\<open>process_papers\<close>. \<open>SystemExit\<close> is
  \<^verbatim>\<open>sys.exit(1)\<close>.\<close>

datatype error = SystemExit | IndexError | KeyboardInterrupt | OSError

text \<open>
  \<^verbatim>\<open>
  def load_api_cache():
      if os.path.exists(API_CACHE_FILE):
          with open(API_CACHE_FILE, "r") as f:
              return json.load(f)
      return {}

  def save_api_cache(cache):
      with open(API_CACHE_FILE, "w") as f:
          json.dump(cache, f, indent=2)
  \<close>
  The file holds the JSON document of the dictionary.
\<close>

definition load_api_cache :: "run_state \<Rightarrow> (string \<rightharpoonup> int list)" where
  "load_api_cache st = (case cache_file st of Some doc \<Rightarrow> doc | None \<Rightarrow> Map.empty)"

definition save_api_cache :: "(string \<rightharpoonup> int list) \<Rightarrow> run_state \<Rightarrow> run_state" where
  "save_api_cache cache st = st\<lparr>cache_file := Some cache, saves := saves st + 1\<rparr>"

text \<open>
  One answer of the remote source to \<^verbatim>\<open>pyalex.Works()[...]["id"]\<close> followed by the
  iteration over the citing works: the \<^verbatim>\<open>publication_year\<close> of every work delivered
  (\<open>None\<close> when the work has none), and how the iteration ended: it completed, it
  raised an \<^verbatim>\<open>Exception\<close>, or it was interrupted by an exception that is not an
  \<^verbatim>\<open>Exception\<close> (\<^verbatim>\<open>KeyboardInterrupt\<close>), which the handler does not catch.
  The remote source is a function of the number of earlier queries and the identifier.
\<close>

datatype remote_end = Completed | Raised | Interrupted

datatype remote_response = Response (works: "int option list") (ending: remote_end)

type_synonym remote_source = "nat \<Rightarrow> string \<Rightarrow> remote_response"

text \<open>
  \<^verbatim>\<open>
  for work in citing_works_iterator:
      if work.get("publication_year"):
          citation_years.append(work["publication_year"])
  \<close>
  A year 0 is falsy and is left out like a missing one.
\<close>

fun collect_years :: "int option list \<Rightarrow> int list" where
  "collect_years [] = []"
| "collect_years (None # ws) = collect_years ws"
| "collect_years (Some y # ws) = (if y \<noteq> 0 then y # collect_years ws else collect_years ws)"

definition cache_key :: "string \<Rightarrow> string" where
  "cache_key doi = ''openalex_'' @ doi"

text \<open>
  \<^verbatim>\<open>
  def get_openalex_citation_years(doi, cache):
      if not doi:
          return []
      cache_key = f"openalex_{doi}"
      if cache_key in cache:
          return cache[cache_key]
      citation_years = []
      try:
          id = pyalex.Works()[f"https://doi.org/{doi}"]["id"]
          citing_works_iterator = pyalex.Works().filter(cites=id).get(per_page=200)
          for work in citing_works_iterator: ...
      except Exception as e:
          return []
      cache[cache_key] = citation_years
      return citation_years
  \<close>
\<close>

definition get_openalex_citation_years ::
  "remote_source \<Rightarrow> string \<Rightarrow> run_state \<Rightarrow> (error + int list) \<times> run_state" where
  "get_openalex_citation_years remote doi st =
     (if doi = [] then (Inr [], st)
      else case api_cache st (cache_key doi) of
             Some years \<Rightarrow> (Inr years, st)
           | None \<Rightarrow>
               (let st1 = st\<lparr>queries := queries st @ [doi]\<rparr>
                in case remote (length (queries st)) doi of
                     Response ws Completed \<Rightarrow>
                       (let citation_years = collect_years ws
                        in (Inr citation_years,
                            st1\<lparr>api_cache := (api_cache st1)(cache_key doi \<mapsto> citation_years)\<rparr>))
                   | Response ws Raised \<Rightarrow> (Inr [], st1)
                   | Response ws Interrupted \<Rightarrow> (Inl KeyboardInterrupt, st1)))"

section \<open>The citation resolver and the enrichment pipeline\<close>

text \<open>The two switches \<^verbatim>\<open>--no-dblp\<close> and \<^verbatim>\<open>--no-openalex\<close>.\<close>

record args =
  no_dblp :: bool
  no_openalex :: bool

text \<open>A lookup of one of the two corpus tables, with the key it is made with.\<close>

datatype lookup = DoiLookup string | TitleLookup string

text \<open>
  \<^verbatim>\<open>
  dblp_key = doi_map.get(paper_doi) or title_map.get(normalize_title(paper_title))
  \<close>
  The second lookup is made only when the first gives nothing (or an empty key). The
  function returns the key found and the lookups made.
\<close>

definition resolve_dblp_key ::
  "citation_index \<Rightarrow> string \<Rightarrow> string \<Rightarrow> string option \<times> lookup list" where
  "resolve_dblp_key idx paper_doi paper_title =
     (let by_title = (title_to_key_map idx (normalize_title (Some paper_title)),
                      [DoiLookup paper_doi, TitleLookup (normalize_title (Some paper_title))])
      in case doi_to_key_map idx paper_doi of
           None \<Rightarrow> by_title
         | Some k \<Rightarrow> if k \<noteq> [] then (Some k, [DoiLookup paper_doi]) else by_title)"

text \<open>
  \<^verbatim>\<open>
  if not args.no_dblp:
      dblp_key = ...
      if dblp_key and dblp_key in dblp_citations:
          all_citation_years.extend(dblp_citations[dblp_key])
  \<close>
  The years the corpus contributes for one paper.
\<close>

definition dblp_years :: "args \<Rightarrow> citation_index \<Rightarrow> string \<Rightarrow> string \<Rightarrow> int list" where
  "dblp_years a idx paper_doi paper_title =
     (if no_dblp a then []
      else case fst (resolve_dblp_key idx paper_doi paper_title) of
             None \<Rightarrow> []
           | Some dblp_key \<Rightarrow>
               if dblp_key = [] then []
               else (case citations_map idx dblp_key of None \<Rightarrow> [] | Some ys \<Rightarrow> ys))"

text \<open>
  \<^verbatim>\<open>
  if all_citation_years:
      last_cited_year = max(all_citation_years)
  else:
      last_cited_year = "NOT_CITED"
  ... str(last_cited_year)
  \<close>
\<close>

definition last_cited_year :: "int list \<Rightarrow> string" where
  "last_cited_year all_citation_years =
     (case all_citation_years of
        [] \<Rightarrow> ''NOT_CITED''
      | y # ys \<Rightarrow> str_int (foldl max y ys))"

text \<open>The body of the loop over the rows. Reading a column the row does not have is
  an \<^verbatim>\<open>IndexError\<close>.\<close>

definition process_row ::
  "args \<Rightarrow> citation_index \<Rightarrow> remote_source \<Rightarrow> nat \<Rightarrow> nat \<Rightarrow> string list \<Rightarrow> run_state
     \<Rightarrow> (error + string list) \<times> run_state" where
  "process_row a idx remote doi_idx title_idx row st =
     (if length row \<le> doi_idx then (Inl IndexError, st)
      else if length row \<le> title_idx then (Inl IndexError, st)
      else let paper_doi = str_strip (row ! doi_idx);
               paper_title = str_strip (row ! title_idx);
               all_citation_years = dblp_years a idx paper_doi paper_title
           in if no_openalex a then (Inr (row @ [last_cited_year all_citation_years]), st)
              else case get_openalex_citation_years remote paper_doi st of
                     (Inl e, st') \<Rightarrow> (Inl e, st')
                   | (Inr openalex_years, st') \<Rightarrow>
                       (Inr (row @ [last_cited_year (all_citation_years @ openalex_years)]), st'))"

fun process_rows ::
  "args \<Rightarrow> citation_index \<Rightarrow> remote_source \<Rightarrow> nat \<Rightarrow> nat \<Rightarrow> string list list
     \<Rightarrow> string list list \<Rightarrow> run_state \<Rightarrow> (error + string list list) \<times> run_state" where
  "process_rows a idx remote doi_idx title_idx [] output_rows st = (Inr output_rows, st)"
| "process_rows a idx remote doi_idx title_idx (row # rows) output_rows st =
     (case process_row a idx remote doi_idx title_idx row st of
        (Inl e, st') \<Rightarrow> (Inl e, st')
      | (Inr out, st') \<Rightarrow>
          process_rows a idx remote doi_idx title_idx rows (output_rows @ [out]) st')"

text \<open>\<^verbatim>\<open>header.index(name)\<close>; \<open>None\<close> is the \<^verbatim>\<open>ValueError\<close>.\<close>

fun list_index :: "'a list \<Rightarrow> 'a \<Rightarrow> nat option" where
  "list_index [] x = None"
| "list_index (y # ys) x = (if y = x then Some 0 else map_option Suc (list_index ys x))"

text \<open>
  What a run finds outside the program: the input table as \<^verbatim>\<open>csv.reader\<close> delivers
  it (\<open>None\<close> when the file does not exist), whether the output file can be opened for
  writing, the corpus, and the remote source.
\<close>

datatype corpus_source = Missing | Malformed | Wellformed "element list"

record environment =
  input_tsv :: "string list list option"
  output_writable :: bool
  corpus :: corpus_source
  remote_source :: remote_source

text \<open>
  The \<^verbatim>\<open>try\<close> block of \<^verbatim>\<open>process_papers\<close> with its two handlers: a missing input
  file and a missing column end in \<^verbatim>\<open>sys.exit(1)\<close>; every other exception leaves the
  block as it is.
\<close>

definition try_block ::
  "args \<Rightarrow> citation_index \<Rightarrow> environment \<Rightarrow> run_state \<Rightarrow> (error + unit) \<times> run_state" where
  "try_block a idx env st =
     (case input_tsv env of
        None \<Rightarrow> (Inl SystemExit, st)
      | Some [] \<Rightarrow> (Inl IndexError, st)
      | Some (header # rows) \<Rightarrow>
          (case list_index header ''DOI'' of
             None \<Rightarrow> (Inl SystemExit, st)
           | Some doi_idx \<Rightarrow>
               (case list_index header ''title'' of
                  None \<Rightarrow> (Inl SystemExit, st)
                | Some title_idx \<Rightarrow>
                    (case process_rows a idx (remote_source env) doi_idx title_idx rows [] st of
                       (Inl e, st') \<Rightarrow> (Inl e, st')
                     | (Inr output_rows, st') \<Rightarrow>
                         if output_writable env
                         then (Inr (),
                               st'\<lparr>output_file := Some ((header @ [''last_cited_year'']) # output_rows)\<rparr>)
                         else (Inl OSError, st')))))"

text \<open>
  The enrichment phase: the \<^verbatim>\<open>try\<close> block and its \<^verbatim>\<open>finally\<close> clause,
  \<^verbatim>\<open>save_api_cache(api_cache)\<close>, which runs however the block was left.
\<close>

definition enrichment_phase ::
  "args \<Rightarrow> citation_index \<Rightarrow> environment \<Rightarrow> run_state \<Rightarrow> (error + unit) \<times> run_state" where
  "enrichment_phase a idx env st =
     (case try_block a idx env st of (r, st') \<Rightarrow> (r, save_api_cache (api_cache st') st'))"

text \<open>
  \<^verbatim>\<open>process_papers\<close>: the cache is loaded, the index is built unless the corpus is
  switched off or missing (a malformed corpus ends the run with \<^verbatim>\<open>sys.exit(1)\<close>
  before the \<^verbatim>\<open>try\<close> block is entered), then the enrichment phase runs.
\<close>

definition process_papers :: "args \<Rightarrow> environment \<Rightarrow> run_state \<Rightarrow> (error + unit) \<times> run_state" where
  "process_papers a env st =
     (let st0 = st\<lparr>api_cache := load_api_cache st\<rparr>
      in if no_dblp a then enrichment_phase a empty_index env st0
         else case corpus env of
                Missing \<Rightarrow> enrichment_phase (a\<lparr>no_dblp := True\<rparr>) empty_index env st0
              | Malformed \<Rightarrow> (Inl SystemExit, st0)
              | Wellformed elems \<Rightarrow> enrichment_phase a (build_citation_database elems) env st0)"

section \<open>Observations on a run and on the index\<close>

text \<open>The identifiers sent to the remote source between two states of a run.\<close>

definition new_queries :: "run_state \<Rightarrow> run_state \<Rightarrow> string list" where
  "new_queries st st' = drop (length (queries st)) (queries st')"

text \<open>
  What the lookups of a run may do to the state, from \<open>st\<close> to \<open>st'\<close>: the cache file
  and the save count stay; cache entries are kept; every identifier newly queried is
  non-empty and had no cache entry; a query the remote source completed has its years in
  the cache; an identifier is queried a second time only when the earlier query did
  not complete; and every new cache entry comes from a completed query.
\<close>

definition lookups_only :: "remote_source \<Rightarrow> run_state \<Rightarrow> run_state \<Rightarrow> bool" where
  "lookups_only remote st st' \<longleftrightarrow>
     cache_file st' = cache_file st \<and> saves st' = saves st \<and>
     (\<forall>k v. api_cache st k = Some v \<longrightarrow> api_cache st' k = Some v) \<and>
     (\<exists>new. queries st' = queries st @ new \<and>
            (\<forall>d \<in> set new. d \<noteq> [] \<and> api_cache st (cache_key d) = None)) \<and>
     (\<forall>i. length (queries st) \<le> i \<and> i < length (queries st') \<and>
          ending (remote i (queries st' ! i)) = Completed \<longrightarrow>
          api_cache st' (cache_key (queries st' ! i)) =
            Some (collect_years (works (remote i (queries st' ! i))))) \<and>
     (\<forall>i j. length (queries st) \<le> i \<and> i < j \<and> j < length (queries st') \<and>
            queries st' ! i = queries st' ! j \<longrightarrow>
            ending (remote i (queries st' ! i)) \<noteq> Completed) \<and>
     (\<forall>k. api_cache st' k \<noteq> None \<and> api_cache st k = None \<longrightarrow>
          (\<exists>i. length (queries st) \<le> i \<and> i < length (queries st') \<and>
               k = cache_key (queries st' ! i) \<and>
               ending (remote i (queries st' ! i)) = Completed))"

text \<open>The years the remote source contributes for one paper: none when it is switched
  off or the lookup is interrupted, else what \<^verbatim>\<open>get_openalex_citation_years\<close> returns.\<close>

definition openalex_years :: "args \<Rightarrow> remote_source \<Rightarrow> string \<Rightarrow> run_state \<Rightarrow> int list" where
  "openalex_years a remote paper_doi st =
     (if no_openalex a then []
      else case fst (get_openalex_citation_years remote paper_doi st) of
             Inl e \<Rightarrow> []
           | Inr openalex_years \<Rightarrow> openalex_years)"

text \<open>The state after the cache was saved and loaded again, as the next run starts with.\<close>

definition reloaded :: "run_state \<Rightarrow> run_state" where
  "reloaded st = (let st2 = save_api_cache (api_cache st) st in st2\<lparr>api_cache := load_api_cache st2\<rparr>)"




section \<open>Example data\<close>

text \<open>A remote source that answers one identifier, fails for a second and is interrupted
  for every other; a state with an empty cache and no cache file; and a small corpus: a paper
  with a DOI, two publications citing it, and an element that is no publication.\<close>

definition example_remote :: remote_source where
  "example_remote n doi =
     (if doi = ''10.1/a'' then Response [Some 2019, None, Some 0, Some 2021] Completed
      else if doi = ''10.1/b'' then Response [Some 2000] Raised
      else Response [] Interrupted)"

definition fresh_state :: run_state where
  "fresh_state = \<lparr>api_cache = Map.empty, cache_file = None, saves = 0, queries = [], output_file = None\<rparr>"

definition example_corpus :: "element list" where
  "example_corpus =
     [\<lparr>tag = ''article'', key = Some ''journals/x/P1'', title_text = Some ''Paper One.'',
       ee_texts = [Some ''https://example.org/p1'', Some ''https://doi.org/10.1/a''],
       year_text = Some ''2010'', cite_texts = []\<rparr>,
      \<lparr>tag = ''inproceedings'', key = Some ''conf/y/C1'', title_text = Some ''Citing, 1'',
       ee_texts = [], year_text = Some ''2015'', cite_texts = [Some ''journals/x/P1'', Some ''...'']\<rparr>,
      \<lparr>tag = ''www'', key = Some ''homepages/z'', title_text = Some ''Paper One'',
       ee_texts = [], year_text = Some ''2030'', cite_texts = [Some ''journals/x/P1'']\<rparr>,
      \<lparr>tag = ''article'', key = Some ''journals/x/C2'', title_text = Some ''Citing, 2'',
       ee_texts = [None], year_text = Some ''2018'', cite_texts = [None, Some ''journals/x/P1'']\<rparr>]"

text \<open>Arguments with the corpus switched off; an input table of two rows; and one whose
  second row is interrupted during the remote lookup.\<close>

definition example_args :: args where
  "example_args = \<lparr>no_dblp = True, no_openalex = False\<rparr>"

definition example_env :: environment where
  "example_env =
     \<lparr>input_tsv = Some [[''DOI'', ''title'', ''venue''],
                        [''10.1/a'', ''Paper One'', ''X''],
                        [''10.1/b'', ''Paper Two'', ''Y'']],
      output_writable = True, corpus = Missing, remote_source = example_remote\<rparr>"

definition interrupted_env :: environment where
  "interrupted_env =
     \<lparr>input_tsv = Some [[''DOI'', ''title''],
                        [''10.1/a'', ''Paper One''],
                        [''10.1/c'', ''Paper Three''],
                        [''10.1/b'', ''Paper Two'']],
      output_writable = True, corpus = Missing, remote_source = example_remote\<rparr>"

text \<open>A cache that holds the empty year list for one identifier.\<close>

definition cached_state :: run_state where
  "cached_state = fresh_state\<lparr>api_cache := [''openalex_10.1/a'' \<mapsto> []]\<rparr>"




section \<open>Title normalization\<close>


lemma lower_char_not_upper: "\<not> is_upper (lower_char c)"
  by (auto simp: lower_char_def is_upper_def ord_def)

lemma lower_char_idem: "lower_char (lower_char c) = lower_char c"
  using lower_char_not_upper [of c] by (simp add: lower_char_def [of "lower_char c"])







section \<open>The state of a run\<close>

lemma lookups_only_refl: "lookups_only remote st st"
  by (auto simp: lookups_only_def)

lemma lookups_only_step:
  assumes "get_openalex_citation_years remote doi st = (r, st')"
  shows "lookups_only remote st st'"
proof (cases "doi = [] \<or> api_cache st (cache_key doi) \<noteq> None")
  case True
  with assms have "st' = st"
    by (auto simp: get_openalex_citation_years_def split: if_splits)
  then show ?thesis by (simp add: lookups_only_refl)
next
  case False
  then have miss: "doi \<noteq> []" "api_cache st (cache_key doi) = None" by auto
  obtain ws e where resp: "remote (length (queries st)) doi = Response ws e"
    by (cases "remote (length (queries st)) doi") auto
  show ?thesis
  proof (cases e)
    case Completed
    with assms miss resp have st': "st' = st\<lparr>queries := queries st @ [doi],
        api_cache := (api_cache st)(cache_key doi \<mapsto> collect_years ws)\<rparr>"
      by (simp add: get_openalex_citation_years_def Let_def)
    show ?thesis
      unfolding lookups_only_def st' using miss resp Completed
      by (auto simp: nth_append less_Suc_eq intro!: exI [of _ "length (queries st)"])
  next
    case Raised
    with assms miss resp have st': "st' = st\<lparr>queries := queries st @ [doi]\<rparr>"
      by (simp add: get_openalex_citation_years_def Let_def)
    show ?thesis
      unfolding lookups_only_def st' using miss resp Raised
      by (auto simp: nth_append less_Suc_eq)
  next
    case Interrupted
    with assms miss resp have st': "st' = st\<lparr>queries := queries st @ [doi]\<rparr>"
      by (simp add: get_openalex_citation_years_def Let_def)
    show ?thesis
      unfolding lookups_only_def st' using miss resp Interrupted
      by (auto simp: nth_append less_Suc_eq)
  qed
qed

lemma lookups_only_trans:
  assumes a: "lookups_only remote st st1" and b: "lookups_only remote st1 st2"
  shows "lookups_only remote st st2"
proof -
  from a obtain n1 where n1: "queries st1 = queries st @ n1"
      "\<forall>d \<in> set n1. d \<noteq> [] \<and> api_cache st (cache_key d) = None"
    unfolding lookups_only_def by blast
  from b obtain n2 where n2: "queries st2 = queries st1 @ n2"
      "\<forall>d \<in> set n2. d \<noteq> [] \<and> api_cache st1 (cache_key d) = None"
    unfolding lookups_only_def by blast
  have mono1: "\<And>k v. api_cache st k = Some v \<Longrightarrow> api_cache st1 k = Some v"
    using a unfolding lookups_only_def by blast
  have mono2: "\<And>k v. api_cache st1 k = Some v \<Longrightarrow> api_cache st2 k = Some v"
    using b unfolding lookups_only_def by blast
  have pers1: "\<And>i. length (queries st) \<le> i \<Longrightarrow> i < length (queries st1) \<Longrightarrow>
      ending (remote i (queries st1 ! i)) = Completed \<Longrightarrow>
      api_cache st1 (cache_key (queries st1 ! i)) = Some (collect_years (works (remote i (queries st1 ! i))))"
    using a unfolding lookups_only_def by blast
  have pers2: "\<And>i. length (queries st1) \<le> i \<Longrightarrow> i < length (queries st2) \<Longrightarrow>
      ending (remote i (queries st2 ! i)) = Completed \<Longrightarrow>
      api_cache st2 (cache_key (queries st2 ! i)) = Some (collect_years (works (remote i (queries st2 ! i))))"
    using b unfolding lookups_only_def by blast
  have once1: "\<And>i j. length (queries st) \<le> i \<Longrightarrow> i < j \<Longrightarrow> j < length (queries st1) \<Longrightarrow>
      queries st1 ! i = queries st1 ! j \<Longrightarrow> ending (remote i (queries st1 ! i)) \<noteq> Completed"
    using a unfolding lookups_only_def by blast
  have once2: "\<And>i j. length (queries st1) \<le> i \<Longrightarrow> i < j \<Longrightarrow> j < length (queries st2) \<Longrightarrow>
      queries st2 ! i = queries st2 ! j \<Longrightarrow> ending (remote i (queries st2 ! i)) \<noteq> Completed"
    using b unfolding lookups_only_def by blast
  have early: "\<And>i. i < length (queries st1) \<Longrightarrow> queries st2 ! i = queries st1 ! i"
    by (simp add: n2 nth_append)
  have frame: "cache_file st2 = cache_file st" "saves st2 = saves st"
    using a b unfolding lookups_only_def by simp_all
  have mono: "\<forall>k v. api_cache st k = Some v \<longrightarrow> api_cache st2 k = Some v"
    using mono1 mono2 by blast
  have new: "\<exists>new. queries st2 = queries st @ new \<and>
      (\<forall>d \<in> set new. d \<noteq> [] \<and> api_cache st (cache_key d) = None)"
  proof (intro exI conjI ballI)
    show "queries st2 = queries st @ (n1 @ n2)" by (simp add: n1 n2)
  next
    fix d assume "d \<in> set (n1 @ n2)"
    then consider "d \<in> set n1" | "d \<in> set n2" by auto
    then show "d \<noteq> []"
      using n1(2) n2(2) by cases auto
  next
    fix d assume "d \<in> set (n1 @ n2)"
    then consider "d \<in> set n1" | "d \<in> set n2" by auto
    then show "api_cache st (cache_key d) = None"
    proof cases
      case 1
      then show ?thesis using n1(2) by blast
    next
      case 2
      then have "api_cache st1 (cache_key d) = None" using n2(2) by blast
      then show ?thesis using mono1 [of "cache_key d"] by (cases "api_cache st (cache_key d)") auto
    qed
  qed
  have pers: "\<forall>i. length (queries st) \<le> i \<and> i < length (queries st2) \<and>
      ending (remote i (queries st2 ! i)) = Completed \<longrightarrow>
      api_cache st2 (cache_key (queries st2 ! i)) = Some (collect_years (works (remote i (queries st2 ! i))))"
  proof (intro allI impI)
    fix i
    assume h: "length (queries st) \<le> i \<and> i < length (queries st2) \<and>
      ending (remote i (queries st2 ! i)) = Completed"
    show "api_cache st2 (cache_key (queries st2 ! i)) = Some (collect_years (works (remote i (queries st2 ! i))))"
    proof (cases "i < length (queries st1)")
      case True
      with h pers1 [of i] early [of i] show ?thesis by (simp add: mono2)
    next
      case False
      with h pers2 [of i] show ?thesis by simp
    qed
  qed
  have once: "\<forall>i j. length (queries st) \<le> i \<and> i < j \<and> j < length (queries st2) \<and>
      queries st2 ! i = queries st2 ! j \<longrightarrow> ending (remote i (queries st2 ! i)) \<noteq> Completed"
  proof (intro allI impI)
    fix i j
    assume h: "length (queries st) \<le> i \<and> i < j \<and> j < length (queries st2) \<and>
      queries st2 ! i = queries st2 ! j"
    show "ending (remote i (queries st2 ! i)) \<noteq> Completed"
    proof (cases "j < length (queries st1)")
      case True
      with h once1 [of i j] early [of i] early [of j] show ?thesis by simp
    next
      case late: False
      show ?thesis
      proof (cases "i < length (queries st1)")
        case False
        with h once2 [of i j] show ?thesis by simp
      next
        case True
        from late h have "queries st2 ! j \<in> set n2"
          by (auto simp: n2 nth_append intro!: nth_mem)
        then have absent: "api_cache st1 (cache_key (queries st2 ! j)) = None"
          using n2(2) by blast
        show ?thesis
        proof
          assume "ending (remote i (queries st2 ! i)) = Completed"
          with True h pers1 [of i] early [of i]
          have "api_cache st1 (cache_key (queries st2 ! i)) \<noteq> None" by simp
          with absent h show False by simp
        qed
      qed
    qed
  qed
  have origin1: "\<And>k. api_cache st1 k \<noteq> None \<Longrightarrow> api_cache st k = None \<Longrightarrow>
      \<exists>i. length (queries st) \<le> i \<and> i < length (queries st1) \<and> k = cache_key (queries st1 ! i) \<and>
          ending (remote i (queries st1 ! i)) = Completed"
    using a unfolding lookups_only_def by blast
  have origin2: "\<And>k. api_cache st2 k \<noteq> None \<Longrightarrow> api_cache st1 k = None \<Longrightarrow>
      \<exists>i. length (queries st1) \<le> i \<and> i < length (queries st2) \<and> k = cache_key (queries st2 ! i) \<and>
          ending (remote i (queries st2 ! i)) = Completed"
    using b unfolding lookups_only_def by blast
  have len: "length (queries st) \<le> length (queries st1)" "length (queries st1) \<le> length (queries st2)"
    by (simp_all add: n1 n2)
  have origin: "\<forall>k. api_cache st2 k \<noteq> None \<and> api_cache st k = None \<longrightarrow>
      (\<exists>i. length (queries st) \<le> i \<and> i < length (queries st2) \<and> k = cache_key (queries st2 ! i) \<and>
          ending (remote i (queries st2 ! i)) = Completed)"
  proof (intro allI impI)
    fix k
    assume h: "api_cache st2 k \<noteq> None \<and> api_cache st k = None"
    show "\<exists>i. length (queries st) \<le> i \<and> i < length (queries st2) \<and> k = cache_key (queries st2 ! i) \<and>
          ending (remote i (queries st2 ! i)) = Completed"
    proof (cases "api_cache st1 k")
      case None
      with h origin2 [of k] obtain i where "length (queries st1) \<le> i" "i < length (queries st2)"
          "k = cache_key (queries st2 ! i)" "ending (remote i (queries st2 ! i)) = Completed"
        by auto
      with len show ?thesis by (intro exI [of _ i]) simp
    next
      case (Some v)
      with h origin1 [of k] obtain i where "length (queries st) \<le> i" "i < length (queries st1)"
          "k = cache_key (queries st1 ! i)" "ending (remote i (queries st1 ! i)) = Completed"
        by auto
      with len early [of i] show ?thesis by (intro exI [of _ i]) simp
    qed
  qed
  show ?thesis
    unfolding lookups_only_def using frame mono new pers once origin by blast
qed


lemma lookups_only_output:
  "lookups_only remote st st' \<Longrightarrow> lookups_only remote st (st'\<lparr>output_file := out\<rparr>)"
  by (simp add: lookups_only_def)

lemma process_row_lookups_only:
  assumes "process_row a idx remote doi_idx title_idx row st = (r, st')"
  shows "lookups_only remote st st'"
proof (cases "length row \<le> doi_idx \<or> length row \<le> title_idx \<or> no_openalex a")
  case True
  with assms have "st' = st"
    by (auto simp: process_row_def Let_def split: if_splits)
  then show ?thesis by (simp add: lookups_only_refl)
next
  case False
  obtain r1 st1 where g: "get_openalex_citation_years remote (str_strip (row ! doi_idx)) st = (r1, st1)"
    by (cases "get_openalex_citation_years remote (str_strip (row ! doi_idx)) st") auto
  with assms False have "st' = st1"
    by (cases r1) (auto simp: process_row_def Let_def)
  with g show ?thesis by (simp add: lookups_only_step)
qed

lemma process_rows_lookups_only:
  "process_rows a idx remote doi_idx title_idx rows output_rows st = (r, st')
     \<Longrightarrow> lookups_only remote st st'"
proof (induction rows arbitrary: output_rows st)
  case Nil
  then show ?case by (simp add: lookups_only_refl)
next
  case (Cons row rows)
  obtain r1 st1 where row: "process_row a idx remote doi_idx title_idx row st = (r1, st1)"
    by (cases "process_row a idx remote doi_idx title_idx row st") auto
  then have first: "lookups_only remote st st1"
    by (rule process_row_lookups_only)
  show ?case
  proof (cases r1)
    case (Inl e)
    with Cons.prems row have "st' = st1" by simp
    with first show ?thesis by simp
  next
    case (Inr out)
    with Cons.prems row
    have "process_rows a idx remote doi_idx title_idx rows (output_rows @ [out]) st1 = (r, st')"
      by simp
    then have "lookups_only remote st1 st'" by (rule Cons.IH)
    with first show ?thesis by (rule lookups_only_trans)
  qed
qed

lemma try_block_lookups_only:
  assumes "try_block a idx env st = (r, st')"
  shows "lookups_only (remote_source env) st st'"
proof (cases "input_tsv env")
  case None
  with assms show ?thesis by (simp add: try_block_def lookups_only_refl)
next
  case (Some reader)
  show ?thesis
  proof (cases reader)
    case Nil
    with Some assms show ?thesis by (simp add: try_block_def lookups_only_refl)
  next
    case (Cons header rows)
    show ?thesis
    proof (cases "list_index header ''DOI''")
      case None
      with Some Cons assms show ?thesis by (simp add: try_block_def lookups_only_refl)
    next
      case doi: (Some doi_idx)
      show ?thesis
      proof (cases "list_index header ''title''")
        case None
        with Some Cons doi assms show ?thesis by (simp add: try_block_def lookups_only_refl)
      next
        case title: (Some title_idx)
        obtain r1 st1 where rows:
          "process_rows a idx (remote_source env) doi_idx title_idx rows [] st = (r1, st1)"
          by (cases "process_rows a idx (remote_source env) doi_idx title_idx rows [] st") auto
        then have l: "lookups_only (remote_source env) st st1"
          by (rule process_rows_lookups_only)
        from assms Some Cons doi title rows
        have "st' = st1 \<or> (\<exists>out. st' = st1\<lparr>output_file := out\<rparr>)"
          by (cases r1) (auto simp: try_block_def split: if_splits)
        with l show ?thesis by (auto simp: lookups_only_output)
      qed
    qed
  qed
qed

lemma enrichment_phase_state:
  assumes "enrichment_phase a idx env st = (r, st')"
  obtains st1 where "try_block a idx env st = (r, st1)"
    and "st' = st1\<lparr>cache_file := Some (api_cache st1), saves := saves st1 + 1\<rparr>"
    and "lookups_only (remote_source env) st st1"
proof -
  obtain r1 st1 where t: "try_block a idx env st = (r1, st1)"
    by (cases "try_block a idx env st") auto
  with assms have "r1 = r" "st' = st1\<lparr>cache_file := Some (api_cache st1), saves := saves st1 + 1\<rparr>"
    by (simp_all add: enrichment_phase_def save_api_cache_def)
  with t that show ?thesis
    using try_block_lookups_only [OF t] by simp
qed

text \<open>A run of \<^verbatim>\<open>process_papers\<close> ends before its enrichment phase, with the state as
  it was after loading the cache, or it is the enrichment phase on that state.\<close>

lemma process_papers_cases:
  assumes "process_papers a env st = (r, st')"
  obtains (exit) "\<not> no_dblp a" "corpus env = Malformed" "r = Inl SystemExit"
      "st' = st\<lparr>api_cache := load_api_cache st\<rparr>"
  | (phase) a' idx where "enrichment_phase a' idx env (st\<lparr>api_cache := load_api_cache st\<rparr>) = (r, st')"
      "no_dblp a \<or> corpus env \<noteq> Malformed"
  using assms
  by (cases "corpus env") (auto simp: process_papers_def Let_def split: if_splits)

section \<open>The remote lookup\<close>

text \<open>
  C10. For the empty identifier the remote lookup returns the empty year list at once,
  whatever the cache holds (also an entry under the bare prefix), and the state is returned
  as it was: the cache is neither read nor changed and the remote source is not queried.
  So a row whose identifier is empty after stripping leaves the state of the run as it is.
\<close>

theorem empty_identifier_lookup:
  "get_openalex_citation_years remote [] st = (Inr [], st)
   \<and> (doi_idx < length row \<and> title_idx < length row \<and> str_strip (row ! doi_idx) = [] \<longrightarrow>
        snd (process_row a idx remote doi_idx title_idx row st) = st)"
  by (simp add: get_openalex_citation_years_def process_row_def Let_def)

theorem empty_identifier_lookup_witness:
  "get_openalex_citation_years example_remote []
       (fresh_state\<lparr>api_cache := [''openalex_'' \<mapsto> [1999]]\<rparr>)
     = (Inr [], fresh_state\<lparr>api_cache := [''openalex_'' \<mapsto> [1999]]\<rparr>)
   \<and> queries (snd (process_row \<lparr>no_dblp = True, no_openalex = False\<rparr> empty_index example_remote 0 1
         [''  '', ''A title''] fresh_state)) = []"
  using empty_identifier_lookup [where remote = example_remote
      and st = "fresh_state\<lparr>api_cache := [''openalex_'' \<mapsto> [1999]]\<rparr>"]
    empty_identifier_lookup [where remote = example_remote and st = fresh_state and doi_idx = 0
      and title_idx = 1 and row = "[''  '', ''A title'']"
      and a = "\<lparr>no_dblp = True, no_openalex = False\<rparr>" and idx = empty_index]
  by (simp add: str_strip_def is_space_def ord_def fresh_state_def)

text \<open>
  C3. Cache round trip: after a value is put under a key, the cache is saved and the cache
  is loaded again, the key holds that value; loading after saving gives the whole cache
  back. In terms of the lookup: the years a completed query stored are what the lookup
  returns from the reloaded cache, without a query.
\<close>

theorem cache_round_trip:
  "load_api_cache (save_api_cache (c(k \<mapsto> v)) st) k = Some v
   \<and> load_api_cache (save_api_cache c st) = c
   \<and> (doi \<noteq> [] \<and> api_cache st (cache_key doi) = None
        \<and> remote (length (queries st)) doi = Response ws Completed \<longrightarrow>
      (let st1 = snd (get_openalex_citation_years remote doi st);
           st2 = save_api_cache (api_cache st1) st1;
           st3 = st2\<lparr>api_cache := load_api_cache st2\<rparr>
       in api_cache st1 (cache_key doi) = Some (collect_years ws)
          \<and> get_openalex_citation_years remote2 doi st3 = (Inr (collect_years ws), st3)))"
  by (simp add: load_api_cache_def save_api_cache_def get_openalex_citation_years_def Let_def)

theorem cache_round_trip_witness:
  "(let st1 = snd (get_openalex_citation_years example_remote ''10.1/a'' fresh_state);
        st2 = save_api_cache (api_cache st1) st1;
        st3 = st2\<lparr>api_cache := load_api_cache st2\<rparr>
    in fst (get_openalex_citation_years (\<lambda>n d. Response [] Raised) ''10.1/a'' st3) = Inr [2019, 2021]
       \<and> queries st3 = [''10.1/a''])"
  using cache_round_trip [where st = fresh_state and doi = "''10.1/a''" and remote = example_remote
      and ws = "[Some 2019, None, Some 0, Some 2021]" and ?remote2.0 = "\<lambda>n d. Response [] Raised"]
  by (simp add: example_remote_def fresh_state_def Let_def get_openalex_citation_years_def
      save_api_cache_def load_api_cache_def cache_key_def)


section \<open>The citation resolver\<close>

lemma foldl_max_Max: "foldl max (y :: int) ys = Max (set (y # ys))"
proof -
  have "(\<lambda>x s. max s x) = (max :: int \<Rightarrow> int \<Rightarrow> int)"
    by (intro ext) (simp add: max.commute)
  then have "foldl max y ys = fold max ys y"
    by (simp add: foldl_conv_fold)
  also have "\<dots> = Max (set (y # ys))"
    by (rule Max.set_eq_fold [symmetric])
  finally show ?thesis .
qed

lemma last_cited_year_Max:
  "last_cited_year ys = (if set ys = {} then ''NOT_CITED'' else str_int (Max (set ys)))"
  by (cases ys) (simp_all add: last_cited_year_def foldl_max_Max del: Max_insert)

text \<open>
  C1. For every row the loop processes, the field it appends is the decimal string of the
  maximum year of the union of the corpus evidence and the remote evidence when that union
  is not empty, and the string \<open>NOT_CITED\<close> when it is empty.
\<close>

theorem resolver_result:
  assumes "fst (process_row a idx remote doi_idx title_idx row st) = Inr out"
  shows "out = row @
     [let evidence = set (dblp_years a idx (str_strip (row ! doi_idx)) (str_strip (row ! title_idx)))
                     \<union> set (openalex_years a remote (str_strip (row ! doi_idx)) st)
      in if evidence = {} then ''NOT_CITED'' else str_int (Max evidence)]"
proof -
  let ?doi = "str_strip (row ! doi_idx)"
  let ?dblp = "dblp_years a idx ?doi (str_strip (row ! title_idx))"
  have out: "out = row @ [last_cited_year (?dblp @ openalex_years a remote ?doi st)]"
  proof (cases "no_openalex a")
    case True
    with assms show ?thesis
      by (auto simp: process_row_def openalex_years_def Let_def split: if_splits)
  next
    case False
    obtain r1 st1 where g: "get_openalex_citation_years remote ?doi st = (r1, st1)"
      by (cases "get_openalex_citation_years remote ?doi st") auto
    with assms False show ?thesis
      by (cases r1) (auto simp: process_row_def openalex_years_def Let_def split: if_splits)
  qed
  show ?thesis
    unfolding out last_cited_year_Max Let_def by simp
qed

theorem resolver_result_witness:
  "fst (process_row \<lparr>no_dblp = False, no_openalex = False\<rparr> (build_citation_database example_corpus)
          (\<lambda>n d. Response [Some 2020] Completed) 1 0 [''Paper one'', ''10.1/a'', ''x''] fresh_state)
     = Inr [''Paper one'', ''10.1/a'', ''x'', ''2020'']
   \<and> dblp_years \<lparr>no_dblp = False, no_openalex = False\<rparr> (build_citation_database example_corpus)
        ''10.1/a'' ''Paper one'' = [2015, 2018]
   \<and> openalex_years \<lparr>no_dblp = False, no_openalex = False\<rparr> (\<lambda>n d. Response [Some 2020] Completed)
        ''10.1/a'' fresh_state = [2020]"
proof -
  have run: "fst (process_row \<lparr>no_dblp = False, no_openalex = False\<rparr> (build_citation_database example_corpus)
          (\<lambda>n d. Response [Some 2020] Completed) 1 0 [''Paper one'', ''10.1/a'', ''x''] fresh_state)
     = Inr [''Paper one'', ''10.1/a'', ''x'', ''2020'']"
    by code_simp
  have dblp: "dblp_years \<lparr>no_dblp = False, no_openalex = False\<rparr> (build_citation_database example_corpus)
        ''10.1/a'' ''Paper one'' = [2015, 2018]"
    by code_simp
  have remote: "openalex_years \<lparr>no_dblp = False, no_openalex = False\<rparr> (\<lambda>n d. Response [Some 2020] Completed)
        ''10.1/a'' fresh_state = [2020]"
    by code_simp
  from resolver_result [OF run] run dblp remote show ?thesis by simp
qed

section \<open>Cache entries and queries of a run\<close>

lemma cache_key_inj: "cache_key d = cache_key d' \<longleftrightarrow> d = d'"
  by (simp add: cache_key_def)

lemma lookups_only_queries:
  assumes "lookups_only remote st st'"
  shows "queries st' = queries st @ new_queries st st'"
    and "\<forall>d \<in> set (new_queries st st'). d \<noteq> [] \<and> api_cache st (cache_key d) = None"
  using assms unfolding lookups_only_def new_queries_def by auto

lemma lookups_only_kept:
  "lookups_only remote st st' \<Longrightarrow> api_cache st k = Some v \<Longrightarrow> api_cache st' k = Some v"
  unfolding lookups_only_def by blast

lemma lookups_only_answered:
  "lookups_only remote st st' \<Longrightarrow> length (queries st) \<le> i \<Longrightarrow> i < length (queries st') \<Longrightarrow>
   ending (remote i (queries st' ! i)) = Completed \<Longrightarrow>
   api_cache st' (cache_key (queries st' ! i)) = Some (collect_years (works (remote i (queries st' ! i))))"
  unfolding lookups_only_def by blast

lemma lookups_only_once:
  "lookups_only remote st st' \<Longrightarrow> length (queries st) \<le> i \<Longrightarrow> i < j \<Longrightarrow> j < length (queries st') \<Longrightarrow>
   queries st' ! i = queries st' ! j \<Longrightarrow> ending (remote i (queries st' ! i)) \<noteq> Completed"
  unfolding lookups_only_def by blast

lemma lookups_only_origin:
  "lookups_only remote st st' \<Longrightarrow> api_cache st' k \<noteq> None \<Longrightarrow> api_cache st k = None \<Longrightarrow>
   \<exists>i. length (queries st) \<le> i \<and> i < length (queries st') \<and> k = cache_key (queries st' ! i) \<and>
       ending (remote i (queries st' ! i)) = Completed"
  unfolding lookups_only_def by blast

lemma enrichment_phase_fields:
  assumes "enrichment_phase a idx env st = (r, st')"
  obtains st1 where "lookups_only (remote_source env) st st1"
    and "queries st' = queries st1" and "api_cache st' = api_cache st1"
    and "cache_file st' = Some (api_cache st1)" and "saves st' = saves st + 1"
proof -
  from assms obtain st1 where st1: "st' = st1\<lparr>cache_file := Some (api_cache st1), saves := saves st1 + 1\<rparr>"
      "lookups_only (remote_source env) st st1"
    by (rule enrichment_phase_state)
  then have "saves st1 = saves st" unfolding lookups_only_def by simp
  with st1 that [of st1] show ?thesis by simp
qed

lemma enrichment_phase_new_queries:
  assumes "enrichment_phase a idx env st = (r, st')"
  shows "\<forall>d \<in> set (new_queries st st'). d \<noteq> [] \<and> api_cache st (cache_key d) = None"
proof -
  from assms obtain st1 where l: "lookups_only (remote_source env) st st1"
    and q: "queries st' = queries st1"
    by (rule enrichment_phase_fields)
  from q have "new_queries st st' = new_queries st st1" by (simp add: new_queries_def)
  with lookups_only_queries(2) [OF l] show ?thesis by simp
qed

lemma process_papers_cached:
  assumes onfile: "cache_file st = Some doc" and entry: "doc (cache_key d) = Some v"
    and run: "process_papers a env st = (r, st')"
  shows "d \<notin> set (new_queries st st') \<and> (\<exists>doc'. cache_file st' = Some doc' \<and> doc' (cache_key d) = Some v)"
  using run
proof (cases rule: process_papers_cases)
  case exit
  with onfile entry show ?thesis by (simp add: new_queries_def)
next
  case (phase a' idx)
  let ?st0 = "st\<lparr>api_cache := load_api_cache st\<rparr>"
  have loaded: "api_cache ?st0 (cache_key d) = Some v"
    using onfile entry by (simp add: load_api_cache_def)
  from phase(1) obtain st1 where l: "lookups_only (remote_source env) ?st0 st1"
    and q: "queries st' = queries st1" and f: "cache_file st' = Some (api_cache st1)"
    by (rule enrichment_phase_fields)
  have "new_queries st st' = new_queries ?st0 st'" by (simp add: new_queries_def)
  with enrichment_phase_new_queries [OF phase(1)] loaded
  have "d \<notin> set (new_queries st st')" by auto
  moreover have "api_cache st1 (cache_key d) = Some v"
    using l loaded by (rule lookups_only_kept)
  ultimately show ?thesis using f by simp
qed

section \<open>Flushing the cache\<close>

text \<open>
  C2. Every run of the enrichment phase, however it ends (also with an error that leaves
  the \<^verbatim>\<open>try\<close> block), saves the cache exactly once, as its last action: the cache
  file then holds the cache in memory. Every query the remote source completed during the
  phase is in the saved cache with its years, and no later run queries its identifier again.
\<close>

theorem cache_flushed_once:
  assumes "enrichment_phase a idx env st = (r, st')"
  shows "saves st' = saves st + 1
     \<and> cache_file st' = Some (api_cache st')
     \<and> (\<forall>i. length (queries st) \<le> i \<and> i < length (queries st')
            \<and> ending (remote_source env i (queries st' ! i)) = Completed \<longrightarrow>
          api_cache st' (cache_key (queries st' ! i))
            = Some (collect_years (works (remote_source env i (queries st' ! i))))
          \<and> (\<forall>a2 env2. queries st' ! i \<notin> set (new_queries st' (snd (process_papers a2 env2 st')))))"
proof -
  from assms obtain st1 where l: "lookups_only (remote_source env) st st1"
    and q: "queries st' = queries st1" and c: "api_cache st' = api_cache st1"
    and f: "cache_file st' = Some (api_cache st1)" and s: "saves st' = saves st + 1"
    by (rule enrichment_phase_fields)
  have "api_cache st' (cache_key (queries st' ! i))
            = Some (collect_years (works (remote_source env i (queries st' ! i))))
          \<and> (\<forall>a2 env2. queries st' ! i \<notin> set (new_queries st' (snd (process_papers a2 env2 st'))))"
    if "length (queries st) \<le> i" "i < length (queries st')"
      "ending (remote_source env i (queries st' ! i)) = Completed" for i
  proof -
    have entry: "api_cache st' (cache_key (queries st' ! i))
            = Some (collect_years (works (remote_source env i (queries st' ! i))))"
      using lookups_only_answered [OF l, of i] that q c by simp
    have "queries st' ! i \<notin> set (new_queries st' (snd (process_papers a2 env2 st')))" for a2 env2
      using process_papers_cached [of st' "api_cache st'" "queries st' ! i" _ a2 env2
          "fst (process_papers a2 env2 st')" "snd (process_papers a2 env2 st')"] entry f c
      by simp
    with entry show ?thesis by blast
  qed
  with s f c show ?thesis by simp
qed

theorem cache_flushed_once_witness:
  "fst (enrichment_phase example_args empty_index interrupted_env fresh_state) = Inl KeyboardInterrupt
   \<and> saves (snd (enrichment_phase example_args empty_index interrupted_env fresh_state)) = 1
   \<and> queries (snd (enrichment_phase example_args empty_index interrupted_env fresh_state))
       = [''10.1/a'', ''10.1/c'']
   \<and> the (cache_file (snd (enrichment_phase example_args empty_index interrupted_env fresh_state)))
        ''openalex_10.1/a'' = Some [2019, 2021]"
proof -
  let ?run = "enrichment_phase example_args empty_index interrupted_env fresh_state"
  have r: "fst ?run = Inl KeyboardInterrupt" by code_simp
  have q: "queries (snd ?run) = [''10.1/a'', ''10.1/c'']" by code_simp
  have fresh: "saves fresh_state = 0" "queries fresh_state = []" by (simp_all add: fresh_state_def)
  have answer: "remote_source interrupted_env 0 ''10.1/a'' = Response [Some 2019, None, Some 0, Some 2021] Completed"
    by (simp add: interrupted_env_def example_remote_def)
  have "?run = (fst ?run, snd ?run)" by simp
  from cache_flushed_once [OF this] fresh q answer
  have "saves (snd ?run) = 1" and "cache_file (snd ?run) = Some (api_cache (snd ?run))"
    and "api_cache (snd ?run) (cache_key ''10.1/a'') = Some [2019, 2021]"
    by (auto dest: spec [of _ 0])
  with r q show ?thesis by (simp add: cache_key_def)
qed

text \<open>A malformed corpus ends \<^verbatim>\<open>process_papers\<close> before the enrichment phase: the
  cache is not saved, and nothing was queried, so the cache file has lost nothing.\<close>

lemma process_papers_malformed_corpus:
  assumes "\<not> no_dblp a" and "corpus env = Malformed"
  shows "process_papers a env st = (Inl SystemExit, st\<lparr>api_cache := load_api_cache st\<rparr>)"
  using assms by (simp add: process_papers_def)

lemma process_papers_saves_once:
  assumes "process_papers a env st = (r, st')" and "no_dblp a \<or> corpus env \<noteq> Malformed"
  shows "saves st' = saves st + 1 \<and> cache_file st' = Some (api_cache st')"
  using assms(1)
proof (cases rule: process_papers_cases)
  case exit
  with assms(2) show ?thesis by simp
next
  case (phase a' idx)
  from phase(1) show ?thesis
    by (rule enrichment_phase_fields) simp
qed

text \<open>
  C4. When the remote source raises an exception during the lookup for an identifier, the
  lookup returns the empty year list (no error leaves it, so the row is completed with
  the corpus evidence alone and the loop goes on), and the cache is left as it was, without
  an entry for the identifier; after saving and reloading the cache, a lookup for the
  identifier queries the remote source again. Over a whole enrichment phase: an identifier
  without a cache entry whose queries all failed has no entry in the saved cache.
\<close>

theorem remote_failure_not_cached:
  assumes "doi \<noteq> []" and "api_cache st (cache_key doi) = None"
    and "ending (remote (length (queries st)) doi) = Raised"
  shows "get_openalex_citation_years remote doi st = (Inr [], st\<lparr>queries := queries st @ [doi]\<rparr>)
     \<and> (doi_idx < length row \<and> title_idx < length row \<and> str_strip (row ! doi_idx) = doi
          \<and> \<not> no_openalex a \<longrightarrow>
        process_row a idx remote doi_idx title_idx row st
          = (Inr (row @ [last_cited_year (dblp_years a idx doi (str_strip (row ! title_idx)))]),
             st\<lparr>queries := queries st @ [doi]\<rparr>))
     \<and> api_cache (reloaded (snd (get_openalex_citation_years remote doi st))) (cache_key doi) = None
     \<and> queries (snd (get_openalex_citation_years remote2 doi
                       (reloaded (snd (get_openalex_citation_years remote doi st)))))
         = queries st @ [doi, doi]
     \<and> (enrichment_phase a idx env st = (r, st')
          \<and> (\<forall>i. length (queries st) \<le> i \<and> i < length (queries st') \<and> queries st' ! i = doi \<longrightarrow>
                 ending (remote_source env i doi) \<noteq> Completed) \<longrightarrow>
        cache_file st' = Some (api_cache st') \<and> api_cache st' (cache_key doi) = None)"
proof -
  obtain ws where resp: "remote (length (queries st)) doi = Response ws Raised"
    using assms(3) by (cases "remote (length (queries st)) doi") auto
  have lookup: "get_openalex_citation_years remote doi st = (Inr [], st\<lparr>queries := queries st @ [doi]\<rparr>)"
    using assms(1,2) resp by (simp add: get_openalex_citation_years_def Let_def)
  have row: "process_row a idx remote doi_idx title_idx row st
          = (Inr (row @ [last_cited_year (dblp_years a idx doi (str_strip (row ! title_idx)))]),
             st\<lparr>queries := queries st @ [doi]\<rparr>)"
    if "doi_idx < length row" "title_idx < length row" "str_strip (row ! doi_idx) = doi" "\<not> no_openalex a"
    using that lookup by (simp add: process_row_def Let_def)
  have again: "api_cache (reloaded (snd (get_openalex_citation_years remote doi st))) (cache_key doi) = None"
    "queries (snd (get_openalex_citation_years remote2 doi
                       (reloaded (snd (get_openalex_citation_years remote doi st)))))
         = queries st @ [doi, doi]"
    using assms(1,2) lookup
    by (auto simp: reloaded_def save_api_cache_def load_api_cache_def get_openalex_citation_years_def
        Let_def split: remote_response.splits remote_end.splits)
  have phase: "cache_file st' = Some (api_cache st') \<and> api_cache st' (cache_key doi) = None"
    if run: "enrichment_phase a idx env st = (r, st')"
      and failed: "\<forall>i. length (queries st) \<le> i \<and> i < length (queries st') \<and> queries st' ! i = doi \<longrightarrow>
                 ending (remote_source env i doi) \<noteq> Completed"
  proof -
    from run obtain st1 where l: "lookups_only (remote_source env) st st1"
      and q: "queries st' = queries st1" and c: "api_cache st' = api_cache st1"
      and f: "cache_file st' = Some (api_cache st1)"
      by (rule enrichment_phase_fields)
    have "api_cache st1 (cache_key doi) = None"
    proof (rule ccontr)
      assume "api_cache st1 (cache_key doi) \<noteq> None"
      from lookups_only_origin [OF l this assms(2)] obtain i where
        "length (queries st) \<le> i" "i < length (queries st1)" "cache_key doi = cache_key (queries st1 ! i)"
        "ending (remote_source env i (queries st1 ! i)) = Completed"
        by blast
      with failed q show False by (auto simp: cache_key_inj)
    qed
    with f c show ?thesis by simp
  qed
  from lookup row again phase show ?thesis by blast
qed

theorem remote_failure_not_cached_witness:
  "fst (get_openalex_citation_years example_remote ''10.1/b'' fresh_state) = Inr []
   \<and> api_cache (reloaded (snd (get_openalex_citation_years example_remote ''10.1/b'' fresh_state)))
        ''openalex_10.1/b'' = None
   \<and> queries (snd (get_openalex_citation_years example_remote ''10.1/b''
                       (reloaded (snd (get_openalex_citation_years example_remote ''10.1/b'' fresh_state)))))
         = [''10.1/b'', ''10.1/b'']
   \<and> fst (process_row example_args empty_index example_remote 0 1 [''10.1/b'', ''Paper Two'', ''Y''] fresh_state)
         = Inr [''10.1/b'', ''Paper Two'', ''Y'', ''NOT_CITED'']
   \<and> api_cache (snd (enrichment_phase example_args empty_index example_env fresh_state))
        ''openalex_10.1/b'' = None"
proof -
  have h: "''10.1/b'' \<noteq> []" "api_cache fresh_state (cache_key ''10.1/b'') = None"
    "ending (example_remote (length (queries fresh_state)) ''10.1/b'') = Raised"
    by (simp_all add: fresh_state_def example_remote_def)
  let ?run = "enrichment_phase example_args empty_index example_env fresh_state"
  have q: "queries (snd ?run) = [''10.1/a'', ''10.1/b'']" by code_simp
  have s: "str_strip ''10.1/b'' = ''10.1/b''" "dblp_years example_args empty_index ''10.1/b'' (str_strip ''Paper Two'') = []"
    by code_simp+
  have failed: "\<forall>i. length (queries fresh_state) \<le> i \<and> i < length (queries (snd ?run))
      \<and> queries (snd ?run) ! i = ''10.1/b'' \<longrightarrow> ending (remote_source example_env i ''10.1/b'') \<noteq> Completed"
    by (simp add: example_env_def example_remote_def)
  have args: "\<not> no_openalex example_args" by (simp add: example_args_def)
  note t = remote_failure_not_cached [where doi = "''10.1/b''" and st = fresh_state
      and remote = example_remote and ?remote2.0 = example_remote and a = example_args
      and idx = empty_index and env = example_env and r = "fst ?run" and st' = "snd ?run"
      and doi_idx = 0 and title_idx = 1 and row = "[''10.1/b'', ''Paper Two'', ''Y'']", OF h]
  from t have 1: "fst (get_openalex_citation_years example_remote ''10.1/b'' fresh_state) = Inr []"
    by simp
  from t have 2: "api_cache (reloaded (snd (get_openalex_citation_years example_remote ''10.1/b'' fresh_state)))
        (cache_key ''10.1/b'') = None"
    by blast
  from t have 3: "queries (snd (get_openalex_citation_years example_remote ''10.1/b''
                       (reloaded (snd (get_openalex_citation_years example_remote ''10.1/b'' fresh_state)))))
         = queries fresh_state @ [''10.1/b'', ''10.1/b'']"
    by blast
  from t s args have 4: "fst (process_row example_args empty_index example_remote 0 1
        [''10.1/b'', ''Paper Two'', ''Y''] fresh_state) = Inr [''10.1/b'', ''Paper Two'', ''Y'', ''NOT_CITED'']"
    by (simp add: last_cited_year_def)
  from t failed have 5: "api_cache (snd ?run) (cache_key ''10.1/b'') = None"
    by simp
  from 1 2 3 4 5 show ?thesis
    by (simp add: cache_key_def fresh_state_def)
qed

text \<open>
  C5. Once a cache key is present (also with the empty year list), a lookup for its
  identifier returns the cached years and does not query the remote source; for the rest
  of the enrichment phase the identifier is not queried and the entry stays as it is; the
  phase saves it to the cache file; and the next run, which loads that file, does not query
  the identifier either and keeps the entry in the file. The same holds for the keys that
  become present during the phase: an identifier is queried a second time only when the
  earlier query did not complete.
\<close>

theorem cached_key_never_requeried:
  assumes "api_cache st (cache_key doi) = Some years"
    and "enrichment_phase a idx env st = (r, st')"
    and "process_papers a2 env2 st' = (r2, st2)"
  shows "queries (snd (get_openalex_citation_years remote doi st)) = queries st
     \<and> (doi \<noteq> [] \<longrightarrow> get_openalex_citation_years remote doi st = (Inr years, st))
     \<and> doi \<notin> set (new_queries st st')
     \<and> api_cache st' (cache_key doi) = Some years
     \<and> cache_file st' = Some (api_cache st')
     \<and> doi \<notin> set (new_queries st' st2)
     \<and> (\<exists>doc. cache_file st2 = Some doc \<and> doc (cache_key doi) = Some years)
     \<and> (\<forall>i j. length (queries st) \<le> i \<and> i < j \<and> j < length (queries st')
               \<and> queries st' ! i = queries st' ! j \<longrightarrow>
             ending (remote_source env i (queries st' ! i)) \<noteq> Completed)"
proof -
  have lookup: "get_openalex_citation_years remote doi st = (Inr years, st)" if "doi \<noteq> []"
    using that assms(1) by (simp add: get_openalex_citation_years_def)
  have quiet: "queries (snd (get_openalex_citation_years remote doi st)) = queries st"
    using assms(1) by (simp add: get_openalex_citation_years_def)
  from assms(2) obtain st1 where l: "lookups_only (remote_source env) st st1"
    and q: "queries st' = queries st1" and c: "api_cache st' = api_cache st1"
    and f: "cache_file st' = Some (api_cache st1)"
    by (rule enrichment_phase_fields)
  have same_run: "doi \<notin> set (new_queries st st')"
    using enrichment_phase_new_queries [OF assms(2)] assms(1) by auto
  have kept: "api_cache st' (cache_key doi) = Some years"
    using lookups_only_kept [OF l assms(1)] c by simp
  have saved: "cache_file st' = Some (api_cache st')"
    using f c by simp
  have next_run: "doi \<notin> set (new_queries st' st2) \<and>
      (\<exists>doc. cache_file st2 = Some doc \<and> doc (cache_key doi) = Some years)"
    using saved kept assms(3) by (rule process_papers_cached)
  have once: "\<forall>i j. length (queries st) \<le> i \<and> i < j \<and> j < length (queries st')
               \<and> queries st' ! i = queries st' ! j \<longrightarrow>
             ending (remote_source env i (queries st' ! i)) \<noteq> Completed"
    using lookups_only_once [OF l] q by simp
  from lookup quiet same_run kept saved next_run once show ?thesis by blast
qed

theorem cached_key_never_requeried_witness:
  "fst (get_openalex_citation_years example_remote ''10.1/a'' cached_state) = Inr []
   \<and> queries (snd (enrichment_phase example_args empty_index example_env cached_state)) = [''10.1/b'']
   \<and> ''10.1/a'' \<notin> set (new_queries
         (snd (enrichment_phase example_args empty_index example_env cached_state))
         (snd (process_papers example_args example_env
                (snd (enrichment_phase example_args empty_index example_env cached_state)))))"
proof -
  let ?run = "enrichment_phase example_args empty_index example_env cached_state"
  let ?next = "process_papers example_args example_env (snd ?run)"
  have h: "api_cache cached_state (cache_key ''10.1/a'') = Some []"
    by (simp add: cached_state_def cache_key_def)
  have q: "queries (snd ?run) = [''10.1/b'']" by code_simp
  have "?run = (fst ?run, snd ?run)" "?next = (fst ?next, snd ?next)" by simp_all
  from cached_key_never_requeried [OF h this, of example_remote] q show ?thesis
    by simp
qed

section \<open>The output table\<close>

lemma get_openalex_error:
  "fst (get_openalex_citation_years remote doi st) = Inl e \<Longrightarrow>
   \<exists>n. ending (remote n doi) = Interrupted"
  by (auto simp: get_openalex_citation_years_def Let_def
      split: if_splits option.splits remote_response.splits remote_end.splits
      intro!: exI [of _ "length (queries st)"])

lemma process_row_appends:
  assumes "process_row a idx remote doi_idx title_idx row st = (Inr out, st')"
  shows "\<exists>v. out = row @ [v]"
proof (cases "no_openalex a")
  case True
  with assms show ?thesis
    by (auto simp: process_row_def Let_def split: if_splits)
next
  case False
  obtain r1 st1 where "get_openalex_citation_years remote (str_strip (row ! doi_idx)) st = (r1, st1)"
    by (cases "get_openalex_citation_years remote (str_strip (row ! doi_idx)) st") auto
  with assms False show ?thesis
    by (cases r1) (auto simp: process_row_def Let_def split: if_splits)
qed

lemma process_row_completes:
  assumes "doi_idx < length row" "title_idx < length row"
    and "\<forall>n d. ending (remote n d) \<noteq> Interrupted"
  shows "\<exists>out. fst (process_row a idx remote doi_idx title_idx row st) = Inr out"
proof (cases "no_openalex a")
  case True
  with assms show ?thesis by (simp add: process_row_def Let_def)
next
  case False
  obtain r1 st1 where g: "get_openalex_citation_years remote (str_strip (row ! doi_idx)) st = (r1, st1)"
    by (cases "get_openalex_citation_years remote (str_strip (row ! doi_idx)) st") auto
  show ?thesis
  proof (cases r1)
    case (Inl e)
    with g get_openalex_error [of remote "str_strip (row ! doi_idx)" st e] assms(3)
    show ?thesis by simp
  next
    case (Inr ys)
    with g assms False show ?thesis by (simp add: process_row_def Let_def)
  qed
qed

lemma process_rows_appends:
  "process_rows a idx remote doi_idx title_idx rows output_rows st = (Inr out, st') \<Longrightarrow>
   \<exists>new. out = output_rows @ new \<and> list_all2 (\<lambda>row out_row. \<exists>v. out_row = row @ [v]) rows new"
proof (induction rows arbitrary: output_rows st)
  case Nil
  then show ?case by simp
next
  case (Cons row rows)
  obtain r1 st1 where row: "process_row a idx remote doi_idx title_idx row st = (r1, st1)"
    by (cases "process_row a idx remote doi_idx title_idx row st") auto
  show ?case
  proof (cases r1)
    case (Inl e)
    with Cons.prems row show ?thesis by simp
  next
    case (Inr o1)
    with Cons.prems row
    have "process_rows a idx remote doi_idx title_idx rows (output_rows @ [o1]) st1 = (Inr out, st')"
      by simp
    from Cons.IH [OF this] obtain new where
      new: "out = (output_rows @ [o1]) @ new" "list_all2 (\<lambda>row out_row. \<exists>v. out_row = row @ [v]) rows new"
      by blast
    from row Inr have "\<exists>v. o1 = row @ [v]" by (auto dest: process_row_appends)
    with new show ?thesis by (intro exI [of _ "o1 # new"]) simp
  qed
qed

lemma process_rows_completes:
  assumes "\<forall>row \<in> set rows. doi_idx < length row \<and> title_idx < length row"
    and "\<forall>n d. ending (remote n d) \<noteq> Interrupted"
  shows "\<exists>out. fst (process_rows a idx remote doi_idx title_idx rows output_rows st) = Inr out"
  using assms(1)
proof (induction rows arbitrary: output_rows st)
  case Nil
  then show ?case by simp
next
  case (Cons row rows)
  then obtain o1 where "fst (process_row a idx remote doi_idx title_idx row st) = Inr o1"
    using process_row_completes [of doi_idx row title_idx remote a idx st] assms(2) by auto
  then obtain st1 where "process_row a idx remote doi_idx title_idx row st = (Inr o1, st1)"
    by (cases "process_row a idx remote doi_idx title_idx row st") auto
  with Cons show ?case by simp
qed

lemma try_block_output:
  assumes "try_block a idx env st = (Inr (), st')"
  shows "\<exists>header rows new. input_tsv env = Some (header # rows)
     \<and> output_file st' = Some ((header @ [''last_cited_year'']) # new)
     \<and> list_all2 (\<lambda>row out_row. \<exists>v. out_row = row @ [v]) rows new"
proof -
  from assms obtain header rows where inp: "input_tsv env = Some (header # rows)"
    by (cases "input_tsv env"; cases "the (input_tsv env)") (auto simp: try_block_def)
  from assms inp obtain doi_idx title_idx where idxs:
    "list_index header ''DOI'' = Some doi_idx" "list_index header ''title'' = Some title_idx"
    by (cases "list_index header ''DOI''"; cases "list_index header ''title''")
       (auto simp: try_block_def)
  obtain r1 st1 where rows:
    "process_rows a idx (remote_source env) doi_idx title_idx rows [] st = (r1, st1)"
    by (cases "process_rows a idx (remote_source env) doi_idx title_idx rows [] st") auto
  from assms inp idxs rows obtain out where out: "r1 = Inr out"
    "st' = st1\<lparr>output_file := Some ((header @ [''last_cited_year'']) # out)\<rparr>"
    by (cases r1) (auto simp: try_block_def split: if_splits)
  from rows out(1) process_rows_appends [of a idx "remote_source env" doi_idx title_idx rows "[]" st out st1]
  have "list_all2 (\<lambda>row out_row. \<exists>v. out_row = row @ [v]) rows out" by simp
  with inp out(2) show ?thesis by simp
qed

lemma try_block_completes:
  assumes "input_tsv env = Some (header # rows)"
    and "list_index header ''DOI'' = Some doi_idx" and "list_index header ''title'' = Some title_idx"
    and "\<forall>row \<in> set rows. doi_idx < length row \<and> title_idx < length row"
    and "output_writable env"
    and "\<forall>n d. ending (remote_source env n d) \<noteq> Interrupted"
  shows "fst (try_block a idx env st) = Inr ()"
proof -
  from process_rows_completes [OF assms(4,6)] obtain out st1 where
    "process_rows a idx (remote_source env) doi_idx title_idx rows [] st = (Inr out, st1)"
    by (metis prod.collapse)
  with assms show ?thesis by (simp add: try_block_def)
qed

lemma try_block_failure:
  assumes "try_block a idx env st = (Inl e, st')"
  shows "output_file st' = output_file st"
proof -
  have rows: "output_file st1 = output_file st0"
    if "process_rows a idx remote doi_idx title_idx rows output_rows st0 = (r1, st1)"
    for remote doi_idx title_idx rows output_rows st0 r1 st1
    using that
  proof (induction rows arbitrary: output_rows st0)
    case Nil
    then show ?case by simp
  next
    case (Cons row rows)
    obtain r2 st2 where row: "process_row a idx remote doi_idx title_idx row st0 = (r2, st2)"
      by (cases "process_row a idx remote doi_idx title_idx row st0") auto
    have "output_file st2 = output_file st0"
      using row
      by (auto simp: process_row_def get_openalex_citation_years_def Let_def
          split: if_splits option.splits remote_response.splits remote_end.splits)
    with Cons row show ?case by (cases r2) auto
  qed
  show ?thesis
  proof (cases "input_tsv env")
    case None
    with assms show ?thesis by (simp add: try_block_def)
  next
    case (Some reader)
    with assms show ?thesis
      by (cases reader; cases "list_index (hd reader) ''DOI''"; cases "list_index (hd reader) ''title''")
         (auto simp: try_block_def split: prod.splits sum.splits if_splits dest: rows)
  qed
qed

text \<open>
  C8. When the enrichment phase completes, the output table has the rows of the input
  table in their order, the header first; every output row is the input row, field for
  field, followed by exactly one more field (the header gets \<open>last_cited_year\<close>); so
  the row count is the same and every row is longer by one. The phase completes for every
  input table whose header names both columns and whose rows all have them, when the
  output can be written and no lookup is interrupted; when it does not complete, no
  output is written.
\<close>

theorem output_table_shape:
  "(fst (enrichment_phase a idx env st) = Inr () \<longrightarrow>
      (\<exists>inp out. input_tsv env = Some inp
         \<and> output_file (snd (enrichment_phase a idx env st)) = Some out
         \<and> length out = length inp
         \<and> (\<forall>i < length inp. out ! i = inp ! i @ [last (out ! i)]
                              \<and> length (out ! i) = length (inp ! i) + 1)
         \<and> hd out = hd inp @ [''last_cited_year'']))
   \<and> (input_tsv env = Some (header # rows)
        \<and> list_index header ''DOI'' = Some doi_idx \<and> list_index header ''title'' = Some title_idx
        \<and> (\<forall>row \<in> set rows. doi_idx < length row \<and> title_idx < length row)
        \<and> output_writable env
        \<and> (\<forall>n d. ending (remote_source env n d) \<noteq> Interrupted) \<longrightarrow>
      fst (enrichment_phase a idx env st) = Inr ())
   \<and> (fst (enrichment_phase a idx env st) = Inl e \<longrightarrow>
      output_file (snd (enrichment_phase a idx env st)) = output_file st)"
proof -
  obtain r1 st1 where t: "try_block a idx env st = (r1, st1)"
    by (cases "try_block a idx env st") auto
  then have phase: "fst (enrichment_phase a idx env st) = r1"
    "output_file (snd (enrichment_phase a idx env st)) = output_file st1"
    by (simp_all add: enrichment_phase_def save_api_cache_def)
  have shape: "\<exists>inp out. input_tsv env = Some inp \<and> output_file st1 = Some out
         \<and> length out = length inp
         \<and> (\<forall>i < length inp. out ! i = inp ! i @ [last (out ! i)]
                              \<and> length (out ! i) = length (inp ! i) + 1)
         \<and> hd out = hd inp @ [''last_cited_year'']"
    if "r1 = Inr ()"
  proof -
    from t that try_block_output [of a idx env st st1] obtain header rows new where
      inp: "input_tsv env = Some (header # rows)"
      and out: "output_file st1 = Some ((header @ [''last_cited_year'']) # new)"
      and rel: "list_all2 (\<lambda>row out_row. \<exists>v. out_row = row @ [v]) rows new"
      by auto
    let ?inp = "header # rows" and ?out = "(header @ [''last_cited_year'']) # new"
    have all: "list_all2 (\<lambda>row out_row. \<exists>v. out_row = row @ [v]) ?inp ?out"
      using rel by simp
    then have len: "length ?out = length ?inp"
      by (simp add: list_all2_lengthD)
    have "?out ! i = ?inp ! i @ [last (?out ! i)] \<and> length (?out ! i) = length (?inp ! i) + 1"
      if "i < length ?inp" for i
    proof -
      from all that have "\<exists>v. ?out ! i = ?inp ! i @ [v]"
        by (rule list_all2_nthD)
      then obtain v where "?out ! i = ?inp ! i @ [v]" ..
      then show ?thesis by simp
    qed
    with inp out len show ?thesis
      by (intro exI [of _ ?inp] exI [of _ ?out]) simp
  qed
  have completes: "r1 = Inr ()"
    if "input_tsv env = Some (header # rows)"
      "list_index header ''DOI'' = Some doi_idx" "list_index header ''title'' = Some title_idx"
      "\<forall>row \<in> set rows. doi_idx < length row \<and> title_idx < length row"
      "output_writable env" "\<forall>n d. ending (remote_source env n d) \<noteq> Interrupted"
    using try_block_completes [OF that, of a idx st] t by simp
  have failure: "output_file st1 = output_file st" if "r1 = Inl e"
    using t that by (auto dest: try_block_failure)
  from shape completes failure show ?thesis
    unfolding phase by blast
qed

theorem output_table_shape_witness:
  "fst (enrichment_phase example_args empty_index example_env fresh_state) = Inr ()
   \<and> input_tsv example_env = Some [[''DOI'', ''title'', ''venue''],
                                    [''10.1/a'', ''Paper One'', ''X''],
                                    [''10.1/b'', ''Paper Two'', ''Y'']]
   \<and> output_file (snd (enrichment_phase example_args empty_index example_env fresh_state))
       = Some [[''DOI'', ''title'', ''venue'', ''last_cited_year''],
               [''10.1/a'', ''Paper One'', ''X'', ''2021''],
               [''10.1/b'', ''Paper Two'', ''Y'', ''NOT_CITED'']]"
proof -
  let ?run = "enrichment_phase example_args empty_index example_env fresh_state"
  have ok: "fst ?run = Inr ()" by code_simp
  have out: "output_file (snd ?run)
       = Some [[''DOI'', ''title'', ''venue'', ''last_cited_year''],
               [''10.1/a'', ''Paper One'', ''X'', ''2021''],
               [''10.1/b'', ''Paper Two'', ''Y'', ''NOT_CITED'']]"
    by code_simp
  have inp: "input_tsv example_env = Some [[''DOI'', ''title'', ''venue''],
                                    [''10.1/a'', ''Paper One'', ''X''],
                                    [''10.1/b'', ''Paper Two'', ''Y'']]"
    by (simp add: example_env_def)
  from output_table_shape [of example_args empty_index example_env fresh_state] ok out inp
  show ?thesis by simp
qed

section \<open>Splitting at the DOI marker\<close>







section \<open>The index after the pass\<close>












section \<open>Rows without identifier and title\<close>






end
